theory Spec2Isabelle
  imports Main
begin

section \<open>Python values handled by parse\_influx.py\<close>

text \<open>
  A \<^verbatim>\<open>datetime.datetime\<close>: its date and time fields, as microseconds counted from the
  epoch (\<open>wall\<close>), and its UTC offset in seconds when it has a time zone (an aware
  datetime), nothing when it has none (a naive one). Both kinds are of the same type
  \<^verbatim>\<open>datetime.datetime\<close>.
\<close>

record datetime =
  wall :: int
  utcoffset :: "int option"

text \<open>
  The instant a datetime denotes, in microseconds since the epoch, UTC. A naive datetime
  is read as UTC, as \<^verbatim>\<open>arrow.get\<close> does.
\<close>

definition instant :: "datetime \<Rightarrow> int" where
  "instant d = (case utcoffset d of None \<Rightarrow> wall d | Some off \<Rightarrow> wall d - off * 1000000)"

text \<open>
  The values a parser may hand back. A dict is an association list in insertion order
  (looked up with \<^const>\<open>map_of\<close>); keys are strings. \<open>PCancelJob\<close> is the class object
  \<^verbatim>\<open>schedule.CancelJob\<close>.
\<close>

datatype pyval =
    PNone
  | PBool bool
  | PInt int
  | PStr string
  | PDatetime datetime
  | PList "pyval list"
  | PTuple "pyval list"
  | PDict "(string \<times> pyval) list"
  | PCancelJob

type_synonym row = "(string \<times> pyval) list"

text \<open>
  Exceptions. \<open>KeyError\<close>, \<open>TypeError\<close>, \<open>EmptySequence\<close> (the \<^verbatim>\<open>ValueError\<close> of
  \<^verbatim>\<open>max\<close> and \<^verbatim>\<open>min\<close> on an empty list) and \<open>AssertionError\<close> are raised by the
  statements of parse\_influx.py itself; \<open>Raised\<close> is whatever an outside collaborator
  (arrow, a parser, pandas, the InfluxDB client) raises, with its message.
\<close>

datatype error =
    KeyError string
  | TypeError
  | EmptySequence
  | AssertionError
  | Raised string

text \<open>
  \<^verbatim>\<open>a < b\<close> on datetimes: two aware datetimes are ordered by their instants, two naive
  ones by their fields, and comparing a naive with an aware one raises \<^verbatim>\<open>TypeError\<close>.
\<close>

definition py_lt :: "datetime \<Rightarrow> datetime \<Rightarrow> error + bool" where
  "py_lt a b =
     (if (utcoffset a = None) = (utcoffset b = None) then Inr (instant a < instant b)
      else Inl TypeError)"

text \<open>Truth value of a Python object, as \<^verbatim>\<open>if x:\<close> and \<^verbatim>\<open>not x\<close> test it.\<close>

fun truthy :: "pyval \<Rightarrow> bool" where
  "truthy PNone = False"
| "truthy (PBool b) = b"
| "truthy (PInt i) = (i \<noteq> 0)"
| "truthy (PStr s) = (s \<noteq> [])"
| "truthy (PDatetime d) = True"
| "truthy (PList xs) = (xs \<noteq> [])"
| "truthy (PTuple xs) = (xs \<noteq> [])"
| "truthy (PDict kvs) = (kvs \<noteq> [])"
| "truthy PCancelJob = True"

text \<open>\<^verbatim>\<open>e[k]\<close> with a string key: a dict looks the key up, anything else raises.\<close>

fun getitem :: "pyval \<Rightarrow> string \<Rightarrow> error + pyval" where
  "getitem (PDict kvs) k = (case map_of kvs k of None \<Rightarrow> Inl (KeyError k) | Some v \<Rightarrow> Inr v)"
| "getitem v k = Inl TypeError"

text \<open>\<^verbatim>\<open>zone.split("->")\<close>: cut at every arrow, left to right.\<close>

fun split_arrow :: "string \<Rightarrow> string \<Rightarrow> string list" where
  "split_arrow acc [] = [rev acc]"
| "split_arrow acc [c] = [rev (c # acc)]"
| "split_arrow acc (c # d # cs) =
     (if c = CHR ''-'' \<and> d = CHR ''>'' then rev acc # split_arrow [] cs
      else split_arrow (c # acc) (d # cs))"

text \<open>\<^verbatim>\<open>needle in haystack\<close> on strings.\<close>

fun contains :: "string \<Rightarrow> string \<Rightarrow> bool" where
  "contains needle [] = (needle = [])"
| "contains needle (c # cs) = (take (length needle) (c # cs) = needle \<or> contains needle cs)"

section \<open>The world around one job run\<close>

text \<open>
  The frame handed to the sink: one entry per row, the value of the index column (absent
  where the row has no such column) and the remaining columns.
\<close>

type_synonym frame = "(pyval option \<times> row) list"

text \<open>The staleness annotation \<^verbatim>\<open>max_dt_warning\<close>: empty, stale, or fresh with the time shown.\<close>

datatype warning = NoWarning | Stale | Fresh int

text \<open>What the run prints, one constructor per \<^verbatim>\<open>print\<close> of the source.\<close>

datatype log_entry =
    ParserReturnedNothing pyval
  | LacksDatetime pyval
  | Traceback int error
  | VerboseReport pyval int datetime datetime warning
  | Fetched int string string

text \<open>
  The mutable part: what the sink has received (series name and frame), what has been
  printed, and how many times the clock has been read.
\<close>

record world =
  writes :: "(string \<times> frame) list"
  printed :: "log_entry list"
  ticks :: nat

text \<open>
  The collaborators, none of them under src/, taken as parameters: the parser table
  \<^verbatim>\<open>PARSER_KEY_TO_DICT\<close> (a dict of dicts of callables; a parser gets its positional
  arguments and \<^verbatim>\<open>target_datetime\<close>, and returns or raises), \<^verbatim>\<open>arrow.get\<close> on the
  caller's target, \<^verbatim>\<open>client.write_points\<close> (which accepts or raises), the clock (the
  value of its n-th reading, in microseconds) and the global \<^verbatim>\<open>verbose\<close>.
\<close>

type_synonym parser = "string list \<Rightarrow> pyval \<Rightarrow> string + pyval"

record env =
  PARSER_KEY_TO_DICT :: "string \<Rightarrow> (string \<Rightarrow> parser option) option"
  arrow_get :: "pyval \<Rightarrow> string + datetime"
  write_points :: "frame \<Rightarrow> string \<Rightarrow> string option"
  clock :: "nat \<Rightarrow> int"
  verbose :: bool

definition now :: "env \<Rightarrow> world \<Rightarrow> int \<times> world" where
  "now E w = (clock E (ticks w), w\<lparr>ticks := Suc (ticks w)\<rparr>)"

definition say :: "log_entry \<Rightarrow> world \<Rightarrow> world" where
  "say l w = w\<lparr>printed := printed w @ [l]\<rparr>"

section \<open>The error-isolation guard\<close>

text \<open>
  \<^verbatim>\<open>catch_exceptions(cancel_on_failure)(job_func)\<close>: the wrapper of lines 31 to 39. The
  bare \<^verbatim>\<open>except:\<close> takes every exception; the handler prints the time and the trace and
  returns \<^verbatim>\<open>schedule.CancelJob\<close> when asked to, and falls off its end (None) otherwise.
\<close>

definition catch_exceptions ::
  "bool \<Rightarrow> env \<Rightarrow> (world \<Rightarrow> (error + pyval) \<times> world) \<Rightarrow> world \<Rightarrow> (error + pyval) \<times> world" where
  "catch_exceptions cancel_on_failure E job_func w =
     (case job_func w of
        (Inr v, w1) \<Rightarrow> (Inr v, w1)
      | (Inl e, w1) \<Rightarrow>
          (let (t, w2) = now E w1;
               w3 = say (Traceback t e) w2
           in if cancel_on_failure then (Inr PCancelJob, w3) else (Inr PNone, w3)))"

section \<open>The job: parse\_to\_influx\<close>

text \<open>Lines 74 and 75: a truthy target is parsed by arrow, anything else is left as it is.\<close>

definition resolve_target :: "env \<Rightarrow> pyval \<Rightarrow> error + pyval" where
  "resolve_target E target_datetime =
     (if truthy target_datetime
      then (case arrow_get E target_datetime of
              Inl msg \<Rightarrow> Inl (Raised msg)
            | Inr d \<Rightarrow> Inr (PDatetime d))
      else Inr target_datetime)"

text \<open>Line 78: two dict lookups, each of which may raise \<^verbatim>\<open>KeyError\<close>.\<close>

definition lookup_parser :: "env \<Rightarrow> string \<Rightarrow> string \<Rightarrow> error + parser" where
  "lookup_parser E data_type zone =
     (case PARSER_KEY_TO_DICT E data_type of
        None \<Rightarrow> Inl (KeyError data_type)
      | Some by_zone \<Rightarrow>
          (case by_zone zone of None \<Rightarrow> Inl (KeyError zone) | Some p \<Rightarrow> Inr p))"

text \<open>Lines 79 to 83: the arguments and the call of the parser.\<close>

definition parser_args :: "string \<Rightarrow> string \<Rightarrow> string list" where
  "parser_args data_type zone =
     (if data_type \<in> set [''exchange'', ''exchangeForecast''] then split_arrow [] zone
      else [zone])"

definition fetch :: "env \<Rightarrow> string \<Rightarrow> string \<Rightarrow> pyval \<Rightarrow> error + pyval" where
  "fetch E zone data_type target =
     (case lookup_parser E data_type zone of
        Inl e \<Rightarrow> Inl e
      | Inr p \<Rightarrow>
          (case p (parser_args data_type zone) target of
             Inl msg \<Rightarrow> Inl (Raised msg)
           | Inr res \<Rightarrow> Inr res))"

text \<open>Lines 90 to 93: a list or tuple is copied into a list, anything else is wrapped.\<close>

fun to_res_list :: "pyval \<Rightarrow> pyval list" where
  "to_res_list (PList xs) = xs"
| "to_res_list (PTuple xs) = xs"
| "to_res_list v = [v]"

text \<open>Line 96: \<^verbatim>\<open>[e["datetime"] for e in res_list]\<close>, stopping at the first raise.\<close>

fun get_dts :: "pyval list \<Rightarrow> error + pyval list" where
  "get_dts [] = Inr []"
| "get_dts (e # es) =
     (case getitem e ''datetime'' of
        Inl err \<Rightarrow> Inl err
      | Inr v \<Rightarrow> (case get_dts es of Inl err \<Rightarrow> Inl err | Inr vs \<Rightarrow> Inr (v # vs)))"

text \<open>
  Lines 104 to 106: every value must be of type \<^verbatim>\<open>datetime.datetime\<close>. The result is
  the list of datetimes when the assertion holds, and nothing when it fails.
\<close>

fun native_dts :: "pyval list \<Rightarrow> datetime list option" where
  "native_dts [] = Some []"
| "native_dts (PDatetime d # vs) = (case native_dts vs of None \<Rightarrow> None | Some ds \<Rightarrow> Some (d # ds))"
| "native_dts (v # vs) = None"

text \<open>
  Modelled from the spec: \<^verbatim>\<open>flatten(var, reducer="underscore")\<close> comes from the package
  flatten\_dict, which is not under src/. Section 4.2 of the spec: each record's nested
  mappings are flattened recursively into single-level entries, parent and child keys
  joined by an underscore. Entries come out in the order of the walk; the spec does not
  say what happens when two paths give the same key, and neither does this definition,
  which keeps both entries.
\<close>

fun underscore_reducer :: "string option \<Rightarrow> string \<Rightarrow> string" where
  "underscore_reducer None k2 = k2"
| "underscore_reducer (Some k1) k2 = k1 @ ''_'' @ k2"

fun flatten_items :: "string option \<Rightarrow> (string \<times> pyval) list \<Rightarrow> row" where
  "flatten_items parent [] = []"
| "flatten_items parent ((k, PDict sub) # rest) =
     flatten_items (Some (underscore_reducer parent k)) sub @ flatten_items parent rest"
| "flatten_items parent ((k, v) # rest) =
     (underscore_reducer parent k, v) # flatten_items parent rest"

fun flatten :: "pyval \<Rightarrow> error + row" where
  "flatten (PDict kvs) = Inr (flatten_items None kvs)"
| "flatten v = Inl (Raised ''flatten: not a mapping'')"

text \<open>Lines 108 to 110: the loop that flattens every record, in order.\<close>

fun reduce_list :: "pyval list \<Rightarrow> error + row list" where
  "reduce_list [] = Inr []"
| "reduce_list (var # vars) =
     (case flatten var of
        Inl e \<Rightarrow> Inl e
      | Inr r \<Rightarrow> (case reduce_list vars of Inl e \<Rightarrow> Inl e | Inr rs \<Rightarrow> Inr (r # rs)))"

text \<open>
  Modelled from the spec: \<^verbatim>\<open>pd.DataFrame(reduced_list).set_index("datetime")\<close> is pandas,
  not under src/. Section 4.2: the batch is indexed by datetime, each row's datetime
  becoming its row key. A column that no row has cannot become the index.
\<close>

definition set_index :: "string \<Rightarrow> row list \<Rightarrow> error + frame" where
  "set_index key rows =
     (if \<exists>r \<in> set rows. map_of r key \<noteq> None
      then Inr (map (\<lambda>r. (map_of r key, filter (\<lambda>kv. fst kv \<noteq> key) r)) rows)
      else Inl (KeyError key))"

text \<open>Lines 115 to 118: the name of the series the frame is written under.\<close>

definition series_target :: "string \<Rightarrow> string \<Rightarrow> string" where
  "series_target data_type zone =
     (if contains ''exchange'' data_type then data_type @ zone else data_type)"

definition client_write :: "env \<Rightarrow> frame \<Rightarrow> string \<Rightarrow> world \<Rightarrow> (error + unit) \<times> world" where
  "client_write E df name w =
     (case write_points E df name of
        Some msg \<Rightarrow> (Inl (Raised msg), w)
      | None \<Rightarrow> (Inr (), w\<lparr>writes := writes w @ [(name, df)]\<rparr>))"

text \<open>
  The builtins \<^verbatim>\<open>max\<close> and \<^verbatim>\<open>min\<close> on a list of datetimes: \<^verbatim>\<open>ValueError\<close> on the empty
  list; otherwise the first element is the candidate and every further element is
  compared with the candidate, replacing it when it is greater (less). A comparison that
  raises ends the call.
\<close>

fun max_from :: "datetime \<Rightarrow> datetime list \<Rightarrow> error + datetime" where
  "max_from m [] = Inr m"
| "max_from m (x # xs) =
     (case py_lt m x of Inl e \<Rightarrow> Inl e | Inr b \<Rightarrow> max_from (if b then x else m) xs)"

fun min_from :: "datetime \<Rightarrow> datetime list \<Rightarrow> error + datetime" where
  "min_from m [] = Inr m"
| "min_from m (x # xs) =
     (case py_lt x m of Inl e \<Rightarrow> Inl e | Inr b \<Rightarrow> min_from (if b then x else m) xs)"

fun py_max :: "datetime list \<Rightarrow> error + datetime" where
  "py_max [] = Inl EmptySequence"
| "py_max (d # ds) = max_from d ds"

fun py_min :: "datetime list \<Rightarrow> error + datetime" where
  "py_min [] = Inl EmptySequence"
| "py_min (d # ds) = min_from d ds"

text \<open>
  \<^verbatim>\<open>arrow.get(d).to("UTC")\<close>: the same instant, as an aware datetime with offset zero.
\<close>

definition to_utc :: "datetime \<Rightarrow> datetime" where
  "to_utc d = \<lparr>wall = instant d, utcoffset = Some 0\<rparr>"

text \<open>
  Lines 120 to 128. The comparison \<^verbatim>\<open>total_seconds() > 2 * 3600\<close> is made here on whole
  microseconds. \<^verbatim>\<open>arrow.utcnow()\<close> is read once for the comparison and once more for the
  text of the message when the data is fresh.
\<close>

record report =
  first_dt :: datetime
  last_dt :: datetime
  max_dt_warning :: warning

definition assess :: "env \<Rightarrow> datetime list \<Rightarrow> pyval \<Rightarrow> world \<Rightarrow> (error + report) \<times> world" where
  "assess E dts target_datetime w =
     (case py_max dts of
        Inl e \<Rightarrow> (Inl e, w)
      | Inr mx \<Rightarrow>
     (case py_min dts of
        Inl e \<Rightarrow> (Inl e, w)
      | Inr mn \<Rightarrow>
          if \<not> truthy target_datetime then
            (let (t1, w1) = now E w in
             if t1 - instant (to_utc mx) > 2 * 3600 * 1000000
             then (Inr \<lparr>first_dt = to_utc mn, last_dt = to_utc mx, max_dt_warning = Stale\<rparr>, w1)
             else (let (t2, w2) = now E w1
                   in (Inr \<lparr>first_dt = to_utc mn, last_dt = to_utc mx,
                            max_dt_warning = Fresh t2\<rparr>, w2)))
          else (Inr \<lparr>first_dt = to_utc mn, last_dt = to_utc mx, max_dt_warning = NoWarning\<rparr>, w)))"

text \<open>Lines 108 to 145: flatten, index, write, assess, print.\<close>

definition persist_and_report ::
  "env \<Rightarrow> string \<Rightarrow> string \<Rightarrow> pyval \<Rightarrow> pyval \<Rightarrow> int \<Rightarrow> pyval list \<Rightarrow> datetime list \<Rightarrow> world
     \<Rightarrow> (error + pyval) \<times> world" where
  "persist_and_report E zone data_type target_datetime res elapsed_time res_list dts w =
     (case reduce_list res_list of
        Inl e \<Rightarrow> (Inl e, w)
      | Inr reduced_list \<Rightarrow>
     (case set_index ''datetime'' reduced_list of
        Inl e \<Rightarrow> (Inl e, w)
      | Inr df \<Rightarrow>
     (case client_write E df (series_target data_type zone) w of
        (Inl e, w1) \<Rightarrow> (Inl e, w1)
      | (Inr u, w1) \<Rightarrow>
     (case assess E dts target_datetime w1 of
        (Inl e, w2) \<Rightarrow> (Inl e, w2)
      | (Inr r, w2) \<Rightarrow>
          if verbose E
          then (Inr PNone,
                say (VerboseReport res elapsed_time (first_dt r) (last_dt r) (max_dt_warning r)) w2)
          else (let (t, w3) = now E w2 in (Inr PNone, say (Fetched t data_type zone) w3))))))"

text \<open>
  Lines 85 to 106: the empty result, the list of records, the datetimes (a bare
  \<^verbatim>\<open>except:\<close> turns any failure of the subscripts into a message and a return), and the
  assertion on their type.
\<close>

definition process ::
  "env \<Rightarrow> string \<Rightarrow> string \<Rightarrow> pyval \<Rightarrow> int \<Rightarrow> pyval \<Rightarrow> world \<Rightarrow> (error + pyval) \<times> world" where
  "process E zone data_type target_datetime start res w =
     (if \<not> truthy res then (Inr PNone, say (ParserReturnedNothing res) w)
      else
        (let (t, w1) = now E w;
             elapsed_time = t - start;
             res_list = to_res_list res
         in case get_dts res_list of
              Inl e \<Rightarrow> (Inr PNone, say (LacksDatetime res) w1)
            | Inr vs \<Rightarrow>
                (case native_dts vs of
                   None \<Rightarrow> (Inl AssertionError, w1)
                 | Some dts \<Rightarrow>
                     persist_and_report E zone data_type target_datetime res elapsed_time
                       res_list dts w1)))"

text \<open>The body of \<^verbatim>\<open>parse_to_influx\<close>, lines 74 to 145, before the decorator.\<close>

definition parse_to_influx_body ::
  "env \<Rightarrow> string \<Rightarrow> string \<Rightarrow> pyval \<Rightarrow> world \<Rightarrow> (error + pyval) \<times> world" where
  "parse_to_influx_body E zone data_type target_datetime w =
     (case resolve_target E target_datetime of
        Inl e \<Rightarrow> (Inl e, w)
      | Inr target \<Rightarrow>
          (let (start, w1) = now E w
           in case fetch E zone data_type target of
                Inl e \<Rightarrow> (Inl e, w1)
              | Inr res \<Rightarrow> process E zone data_type target start res w1))"

text \<open>Line 46: the job as the scheduler sees it, under \<^verbatim>\<open>catch_exceptions(cancel_on_failure=False)\<close>.\<close>

definition parse_to_influx ::
  "env \<Rightarrow> string \<Rightarrow> string \<Rightarrow> pyval \<Rightarrow> world \<Rightarrow> (error + pyval) \<times> world" where
  "parse_to_influx E zone data_type target_datetime =
     catch_exceptions False E (parse_to_influx_body E zone data_type target_datetime)"

text \<open>
  The docstring's list of data types (lines 53 and 54), as it is written there.
\<close>

definition data_types :: "string list" where
  "data_types =
     [''production'', ''exchangeForecast'', ''production'', ''exchange'', ''price'',
      ''consumption'', ''generationForecast'', ''consumptionForecast'']"

section \<open>Concrete inputs\<close>

text \<open>
  A small setting to run the definitions in: parsers for production and exchange that
  return a given result, an arrow that cannot parse anything, a sink that accepts
  everything, and a clock that starts at 1000 and advances by one at every reading.
\<close>

definition example_env :: "pyval \<Rightarrow> env" where
  "example_env res =
     \<lparr>PARSER_KEY_TO_DICT =
        (\<lambda>dt. if dt = ''production'' \<or> dt = ''exchange''
              then Some (\<lambda>z. Some (\<lambda>args target. Inr res)) else None),
      arrow_get = (\<lambda>v. Inl ''could not parse''),
      write_points = (\<lambda>df name. None),
      clock = (\<lambda>n. 1000 + int n),
      verbose = False\<rparr>"

definition world0 :: world where
  "world0 = \<lparr>writes = [], printed = [], ticks = 0\<rparr>"

text \<open>
  The scenario of the spec: two records for production in AT, with aware datetimes at
  instants 100 and 200 (the first one hour east of UTC).
\<close>

definition T0 :: datetime where
  "T0 = \<lparr>wall = 3600000100, utcoffset = Some 3600\<rparr>"

definition T1 :: datetime where
  "T1 = \<lparr>wall = 200, utcoffset = Some 0\<rparr>"




definition scenario :: pyval where
  "scenario =
     PList [PDict [(''datetime'', PDatetime T0), (''value'', PInt 100)],
            PDict [(''datetime'', PDatetime T1), (''value'', PInt 110)]]"

section \<open>Records and their datetime\<close>

text \<open>
  The two ways a record can be malformed, as lines 96 and 105 test them: the subscript
  \<^verbatim>\<open>e["datetime"]\<close> raises (no such key, or not a dict at all), or its value is not of
  type \<^verbatim>\<open>datetime.datetime\<close>.
\<close>

definition has_datetime_key :: "pyval \<Rightarrow> bool" where
  "has_datetime_key e = (case getitem e ''datetime'' of Inl err \<Rightarrow> False | Inr v \<Rightarrow> True)"

definition lacks_native_datetime :: "pyval \<Rightarrow> bool" where
  "lacks_native_datetime e =
     (case getitem e ''datetime'' of Inr (PDatetime d) \<Rightarrow> False | _ \<Rightarrow> True)"

text \<open>
  How a run ends when the batch fails the schema: the assertion of line 104 raises, or
  the message of line 98 is printed and the function returns.
\<close>

definition schema_error :: "pyval \<Rightarrow> world \<Rightarrow> (error + pyval) \<times> world \<Rightarrow> bool" where
  "schema_error res w out =
     (fst out = Inl AssertionError \<and> printed (snd out) = printed w \<or>
      fst out = Inr PNone \<and> printed (snd out) = printed w @ [LacksDatetime res])"

text \<open>Two malformed batches: a record without the key, and a record whose datetime is a string.\<close>

definition no_datetime :: pyval where
  "no_datetime = PList [PDict [(''datetime'', PDatetime T0)], PDict [(''value'', PInt 1)]]"

definition string_datetime :: pyval where
  "string_datetime =
     PList [PDict [(''datetime'', PDatetime T0)],
            PDict [(''datetime'', PStr ''2018-07-03'')]]"


section \<open>Flat rows\<close>





section \<open>The scheduler\<close>

text \<open>
  Modelled from the spec: the scheduler is the package schedule, which is not under src/.
  Sections 4.7 and 5 of the spec: a job is idle or, once cancelled, disabled for good. At
  a tick an idle job whose time since its last run is at least its cadence is run to
  completion; its last run then moves to the tick, unless the run returned the
  cancellation sentinel, which disables this job. The scan visits the jobs in
  registration order, one after the other. The scheduler catches nothing itself: an
  exception that leaves a job function ends the scan.
\<close>

record job =
  job_fn :: "world \<Rightarrow> (error + pyval) \<times> world"
  cadence :: int
  last_run :: int
  disabled :: bool

definition run_job :: "int \<Rightarrow> job \<Rightarrow> world \<Rightarrow> (error + job) \<times> world" where
  "run_job t j w =
     (if \<not> disabled j \<and> cadence j \<le> t - last_run j
      then (case job_fn j w of
              (Inl e, w1) \<Rightarrow> (Inl e, w1)
            | (Inr ret, w1) \<Rightarrow>
                (Inr (if ret = PCancelJob then j\<lparr>disabled := True\<rparr> else j\<lparr>last_run := t\<rparr>), w1))
      else (Inr j, w))"

fun run_pending :: "int \<Rightarrow> job list \<Rightarrow> world \<Rightarrow> (error + job list) \<times> world" where
  "run_pending t [] w = (Inr [], w)"
| "run_pending t (j # js) w =
     (case run_job t j w of
        (Inl e, w1) \<Rightarrow> (Inl e, w1)
      | (Inr j', w1) \<Rightarrow>
          (case run_pending t js w1 of
             (Inl e, w2) \<Rightarrow> (Inl e, w2)
           | (Inr js', w2) \<Rightarrow> (Inr (j' # js'), w2)))"

text \<open>A job function that always raises, and one that always succeeds.\<close>

definition failing :: "world \<Rightarrow> (error + pyval) \<times> world" where
  "failing w = (Inl TypeError, w)"

definition succeeding :: "world \<Rightarrow> (error + pyval) \<times> world" where
  "succeeding w = (Inr PNone, w)"

definition job_of :: "(world \<Rightarrow> (error + pyval) \<times> world) \<Rightarrow> job" where
  "job_of f = \<lparr>job_fn = f, cadence = 900, last_run = 0, disabled = False\<rparr>"

section \<open>Properties of the guard\<close>

lemma body_returns_None:
  "parse_to_influx_body E zone data_type target w = (Inr v, w') \<Longrightarrow> v = PNone"
  by (auto simp: parse_to_influx_body_def process_def persist_and_report_def now_def Let_def
      split: sum.splits prod.splits option.splits if_splits)

text \<open>
  C1. The guarded call never ends in an exception, whatever the job does and whatever the
  policy. When the job raises under the default policy, the guard reads the clock, prints
  the trace with that time and returns None. The job \<open>parse_to_influx\<close> itself, whose
  stages (target, lookup, fetch, normalization, validation, write, report) all run inside
  the guard, always returns None, which is not the cancellation sentinel, so the
  scheduler keeps it.
\<close>

theorem guard_absorbs_every_exception:
  "(\<exists>v w'. catch_exceptions c E job_func w = (Inr v, w')) \<and>
   (job_func w = (Inl e, w1) \<longrightarrow>
      catch_exceptions False E job_func w =
        (Inr PNone, say (Traceback (clock E (ticks w1)) e) (w1\<lparr>ticks := Suc (ticks w1)\<rparr>))) \<and>
   (\<exists>w'. parse_to_influx E zone data_type target w = (Inr PNone, w'))"
proof (intro conjI impI)
  show "\<exists>v w'. catch_exceptions c E job_func w = (Inr v, w')"
    by (cases "job_func w") (auto simp: catch_exceptions_def now_def Let_def split: sum.splits)
  show "catch_exceptions False E job_func w =
        (Inr PNone, say (Traceback (clock E (ticks w1)) e) (w1\<lparr>ticks := Suc (ticks w1)\<rparr>))"
    if "job_func w = (Inl e, w1)"
    using that by (simp add: catch_exceptions_def now_def Let_def)
  show "\<exists>w'. parse_to_influx E zone data_type target w = (Inr PNone, w')"
  proof (cases "parse_to_influx_body E zone data_type target w")
    case (Pair r w1)
    then show ?thesis
      by (cases r) (auto simp: parse_to_influx_def catch_exceptions_def now_def Let_def
          dest: body_returns_None)
  qed
qed

theorem guard_absorbs_every_exception_witness:
  "parse_to_influx_body (example_env PNone) ''AT'' ''price'' PNone world0
     = (Inl (KeyError ''price''), world0\<lparr>ticks := 1\<rparr>) \<and>
   catch_exceptions False (example_env PNone)
       (parse_to_influx_body (example_env PNone) ''AT'' ''price'' PNone) world0
     = (Inr PNone, \<lparr>writes = [], printed = [Traceback 1001 (KeyError ''price'')], ticks = 2\<rparr>)"
proof -
  have b: "parse_to_influx_body (example_env PNone) ''AT'' ''price'' PNone world0
     = (Inl (KeyError ''price''), world0\<lparr>ticks := 1\<rparr>)"
    by (simp add: parse_to_influx_body_def resolve_target_def fetch_def lookup_parser_def
        example_env_def world0_def now_def)
  from guard_absorbs_every_exception
    [of False "example_env PNone" "parse_to_influx_body (example_env PNone) ''AT'' ''price'' PNone"
        world0 "KeyError ''price''" "world0\<lparr>ticks := 1\<rparr>"] b
  show ?thesis by (simp add: say_def world0_def example_env_def)
qed

text \<open>
  C9. The guard is transparent on success: when the wrapped function returns, the guard
  returns the same value and the same world. When it raises under the default policy the
  guard returns None, the very value it returns for a run that succeeded with None.
\<close>

theorem guard_return_transparent:
  "(job_func w = (Inr v, w1) \<longrightarrow> catch_exceptions c E job_func w = (Inr v, w1)) \<and>
   (job_func w = (Inl e, w1) \<longrightarrow> fst (catch_exceptions False E job_func w) = Inr PNone) \<and>
   (job_func w = (Inl e, w1) \<and> other_func w = (Inr PNone, w2) \<longrightarrow>
      fst (catch_exceptions False E job_func w) = fst (catch_exceptions False E other_func w))"
  by (simp add: catch_exceptions_def now_def Let_def)

theorem guard_return_transparent_witness:
  "catch_exceptions True (example_env PNone)
       (\<lambda>w. (Inr (PInt 7), say (Fetched 0 ''price'' ''AT'') w)) world0
     = (Inr (PInt 7), say (Fetched 0 ''price'' ''AT'') world0) \<and>
   fst (catch_exceptions False (example_env PNone) (\<lambda>w. (Inl TypeError, w)) world0) = Inr PNone \<and>
   fst (catch_exceptions False (example_env PNone) (\<lambda>w. (Inl TypeError, w)) world0)
     = fst (catch_exceptions False (example_env PNone) (\<lambda>w. (Inr PNone, w)) world0)"
  using guard_return_transparent
         [of "\<lambda>w. (Inr (PInt 7), say (Fetched 0 ''price'' ''AT'') w)" world0 "PInt 7"
             "say (Fetched 0 ''price'' ''AT'') world0" True "example_env PNone"]
       guard_return_transparent
         [of "\<lambda>w. (Inl TypeError, w)" world0 "PNone" world0 False "example_env PNone" TypeError
             "\<lambda>w. (Inr PNone, w)" world0]
  by (simp add: catch_exceptions_def)

section \<open>What a run writes, and where\<close>

lemma contains_exchange:
  "data_type \<in> set data_types \<Longrightarrow>
     contains ''exchange'' data_type = (data_type = ''exchange'' \<or> data_type = ''exchangeForecast'')"
  unfolding data_types_def by (elim disjE | simp)+

lemma assess_writes:
  "assess E dts target w = (r, w') \<Longrightarrow> writes w' = writes w \<and> printed w' = printed w"
  by (auto simp: assess_def now_def Let_def split: sum.splits if_splits)

lemma at_most_one_write:
  assumes "persist_and_report E zone data_type target res el res_list dts w = (r, w')"
  shows "writes w' = writes w \<or> (\<exists>df. writes w' = writes w @ [(series_target data_type zone, df)])"
proof (cases "reduce_list res_list")
  case (Inl e)
  with assms show ?thesis by (simp add: persist_and_report_def)
next
  case (Inr rows)
  show ?thesis
  proof (cases "set_index ''datetime'' rows")
    case (Inl e)
    with assms Inr show ?thesis by (simp add: persist_and_report_def)
  next
    case df: (Inr df)
    show ?thesis
    proof (cases "write_points E df (series_target data_type zone)")
      case (Some msg)
      with assms Inr df show ?thesis by (simp add: persist_and_report_def client_write_def)
    next
      case None
      let ?w1 = "w\<lparr>writes := writes w @ [(series_target data_type zone, df)]\<rparr>"
      obtain ra w2 where a: "assess E dts target ?w1 = (ra, w2)"
        by (cases "assess E dts target ?w1")
      from assess_writes [OF a]
      have w2: "writes w2 = writes w @ [(series_target data_type zone, df)]" by simp
      from assms Inr df None a have "writes w' = writes w2"
        by (cases ra)
          (auto simp: persist_and_report_def client_write_def say_def now_def Let_def
            split: if_splits)
      with w2 show ?thesis by simp
    qed
  qed
qed

lemma process_writes:
  assumes "process E zone data_type target start res w = (r, w')"
  shows "writes w' = writes w \<or> (\<exists>df. writes w' = writes w @ [(series_target data_type zone, df)])"
proof (cases "truthy res")
  case False
  with assms show ?thesis by (auto simp: process_def say_def)
next
  case True
  show ?thesis
  proof (cases "get_dts (to_res_list res)")
    case (Inl e)
    with assms True show ?thesis by (auto simp: process_def say_def now_def)
  next
    case (Inr vs)
    show ?thesis
    proof (cases "native_dts vs")
      case None
      with assms True Inr show ?thesis by (auto simp: process_def say_def now_def)
    next
      case (Some dts)
      with assms True Inr have
        "persist_and_report E zone data_type target res (clock E (ticks w) - start)
           (to_res_list res) dts (w\<lparr>ticks := Suc (ticks w)\<rparr>) = (r, w')"
        by (simp add: process_def now_def)
      from at_most_one_write [OF this] show ?thesis by simp
    qed
  qed
qed

lemma body_writes:
  assumes "parse_to_influx_body E zone data_type target w = (r, w')"
  shows "writes w' = writes w \<or> (\<exists>df. writes w' = writes w @ [(series_target data_type zone, df)])"
proof (cases "resolve_target E target")
  case (Inl e)
  with assms show ?thesis by (simp add: parse_to_influx_body_def)
next
  case (Inr tg)
  show ?thesis
  proof (cases "fetch E zone data_type tg")
    case (Inl e)
    with assms Inr show ?thesis by (auto simp: parse_to_influx_body_def now_def)
  next
    case res: (Inr res)
    with assms Inr
    have "process E zone data_type tg (clock E (ticks w)) res (w\<lparr>ticks := Suc (ticks w)\<rparr>) = (r, w')"
      by (simp add: parse_to_influx_body_def now_def)
    from process_writes [OF this] show ?thesis by simp
  qed
qed

lemma guard_writes:
  "catch_exceptions c E job_func w = (r, w') \<Longrightarrow> job_func w = (r1, w1) \<Longrightarrow> writes w' = writes w1"
  by (cases r1) (auto simp: catch_exceptions_def now_def say_def Let_def split: if_splits)

text \<open>
  C5. For every data type of the docstring's list and every zone, the series name is the
  data type followed by the zone when the data type is exchange or exchangeForecast, and
  the data type alone otherwise; the two examples of the spec hold; and a run writes at
  most one frame, under that name.
\<close>

theorem series_target_rule:
  "(data_type \<in> set data_types \<longrightarrow>
      series_target data_type zone =
        (if data_type = ''exchange'' \<or> data_type = ''exchangeForecast''
         then data_type @ zone else data_type)) \<and>
   series_target ''exchange'' ''AT->CH'' = ''exchangeAT->CH'' \<and>
   series_target ''production'' ''AT'' = ''production'' \<and>
   (parse_to_influx E zone data_type target w = (r, w') \<longrightarrow>
      writes w' = writes w \<or> (\<exists>df. writes w' = writes w @ [(series_target data_type zone, df)]))"
proof (intro conjI impI)
  show "series_target data_type zone =
        (if data_type = ''exchange'' \<or> data_type = ''exchangeForecast''
         then data_type @ zone else data_type)" if "data_type \<in> set data_types"
    using contains_exchange [OF that] by (simp add: series_target_def)
  show "series_target ''exchange'' ''AT->CH'' = ''exchangeAT->CH''"
    by (simp add: series_target_def)
  show "series_target ''production'' ''AT'' = ''production''"
    by (simp add: series_target_def)
  show "writes w' = writes w \<or> (\<exists>df. writes w' = writes w @ [(series_target data_type zone, df)])"
    if "parse_to_influx E zone data_type target w = (r, w')"
  proof -
    obtain r1 w1 where b: "parse_to_influx_body E zone data_type target w = (r1, w1)"
      by (cases "parse_to_influx_body E zone data_type target w")
    from guard_writes [OF that [unfolded parse_to_influx_def] b] body_writes [OF b]
    show ?thesis by simp
  qed
qed

theorem series_target_rule_witness:
  "''exchange'' \<in> set data_types \<and>
   series_target ''exchange'' ''AT->CH'' = ''exchangeAT->CH'' \<and>
   parse_to_influx (example_env scenario) ''AT->CH'' ''exchange'' PNone world0 =
     (Inr PNone,
      \<lparr>writes = [(''exchangeAT->CH'',
                  [(Some (PDatetime T0), [(''value'', PInt 100)]),
                   (Some (PDatetime T1), [(''value'', PInt 110)])])],
       printed = [Fetched 1004 ''exchange'' ''AT->CH''], ticks = 5\<rparr>)"
proof -
  have run: "parse_to_influx (example_env scenario) ''AT->CH'' ''exchange'' PNone world0 =
     (Inr PNone,
      \<lparr>writes = [(''exchangeAT->CH'',
                  [(Some (PDatetime T0), [(''value'', PInt 100)]),
                   (Some (PDatetime T1), [(''value'', PInt 110)])])],
       printed = [Fetched 1004 ''exchange'' ''AT->CH''], ticks = 5\<rparr>)"
    by (simp add: parse_to_influx_def catch_exceptions_def parse_to_influx_body_def
        resolve_target_def fetch_def lookup_parser_def parser_args_def process_def
        persist_and_report_def set_index_def client_write_def assess_def to_utc_def
        series_target_def example_env_def world0_def scenario_def T0_def T1_def now_def
        say_def py_lt_def instant_def)
  have mem: "''exchange'' \<in> set data_types"
    by (simp add: data_types_def)
  from series_target_rule
         [of "''exchange''" "''AT->CH''" "example_env scenario" PNone world0 "Inr PNone"
             "\<lparr>writes = [(''exchangeAT->CH'',
                  [(Some (PDatetime T0), [(''value'', PInt 100)]),
                   (Some (PDatetime T1), [(''value'', PInt 110)])])],
               printed = [Fetched 1004 ''exchange'' ''AT->CH''], ticks = 5\<rparr>"]
       run mem
  show ?thesis by simp
qed

section \<open>The empty result\<close>

text \<open>
  C7. When the parser returns something falsy (None, an empty list, tuple, dict or string,
  zero, False), the run prints that the parser returned nothing and returns None: no
  exception, so no trace from the guard, nothing flattened and nothing written; the world
  differs only by that one line and the one reading of the clock before the fetch.
\<close>

theorem empty_result_is_noop:
  assumes "resolve_target E target_datetime = Inr target"
    and "fetch E zone data_type target = Inr res"
    and "\<not> truthy res"
  shows "parse_to_influx_body E zone data_type target_datetime w =
           (Inr PNone, say (ParserReturnedNothing res) (w\<lparr>ticks := Suc (ticks w)\<rparr>)) \<and>
         parse_to_influx E zone data_type target_datetime w =
           (Inr PNone, say (ParserReturnedNothing res) (w\<lparr>ticks := Suc (ticks w)\<rparr>)) \<and>
         writes (snd (parse_to_influx E zone data_type target_datetime w)) = writes w"
  using assms
  by (simp add: parse_to_influx_def catch_exceptions_def parse_to_influx_body_def process_def
      now_def say_def)

theorem empty_result_is_noop_witness:
  "resolve_target (example_env (PList [])) PNone = Inr PNone \<and>
   fetch (example_env (PList [])) ''AT'' ''production'' PNone = Inr (PList []) \<and>
   \<not> truthy (PList []) \<and>
   parse_to_influx (example_env (PList [])) ''AT'' ''production'' PNone world0 =
     (Inr PNone, \<lparr>writes = [], printed = [ParserReturnedNothing (PList [])], ticks = 1\<rparr>)"
proof -
  have a: "resolve_target (example_env (PList [])) PNone = Inr PNone"
    by (simp add: resolve_target_def)
  have b: "fetch (example_env (PList [])) ''AT'' ''production'' PNone = Inr (PList [])"
    by (simp add: fetch_def lookup_parser_def example_env_def)
  have c: "\<not> truthy (PList [])"
    by simp
  from empty_result_is_noop [OF a b c, of world0] a b c
  show ?thesis by (simp add: say_def world0_def)
qed

section \<open>The datetimes of a batch\<close>

lemma truthy_res_list: "truthy res \<Longrightarrow> to_res_list res \<noteq> []"
  by (cases res) simp_all

lemma get_dts_Inr:
  "get_dts es = Inr vs \<Longrightarrow> list_all2 (\<lambda>e v. getitem e ''datetime'' = Inr v) es vs"
  by (induction es arbitrary: vs) (auto split: sum.splits)

lemma get_dts_Inl:
  "get_dts es = Inl err \<Longrightarrow> \<exists>e \<in> set es. \<not> has_datetime_key e"
  by (induction es) (auto simp: has_datetime_key_def split: sum.splits)


lemma native_dts_Some: "native_dts vs = Some ds \<Longrightarrow> vs = map PDatetime ds"
  by (induction vs arbitrary: ds rule: native_dts.induct) (auto split: option.splits)

lemma dts_nonempty:
  assumes "truthy res" and "get_dts (to_res_list res) = Inr vs" and "native_dts vs = Some dts"
  shows "dts \<noteq> []"
proof -
  from get_dts_Inr [OF assms(2)] have "length vs = length (to_res_list res)"
    by (simp add: list_all2_lengthD)
  moreover from native_dts_Some [OF assms(3)] have "length vs = length dts"
    by simp
  ultimately show ?thesis
    using truthy_res_list [OF assms(1)] by auto
qed

lemma reduce_list_error: "reduce_list es = Inl e \<Longrightarrow> e \<noteq> EmptySequence"
proof (induction es)
  case Nil
  then show ?case by simp
next
  case (Cons a es)
  then show ?case by (cases a) (auto split: sum.splits)
qed

lemma max_from_error: "max_from m xs = Inl e \<Longrightarrow> e = TypeError"
  by (induction xs arbitrary: m) (auto simp: py_lt_def split: if_splits)

lemma min_from_error: "min_from m xs = Inl e \<Longrightarrow> e = TypeError"
  by (induction xs arbitrary: m) (auto simp: py_lt_def split: if_splits)

lemma py_max_not_empty_sequence: "dts \<noteq> [] \<Longrightarrow> py_max dts \<noteq> Inl EmptySequence"
  by (cases dts) (auto dest: max_from_error)

lemma py_min_not_empty_sequence: "dts \<noteq> [] \<Longrightarrow> py_min dts \<noteq> Inl EmptySequence"
  by (cases dts) (auto dest: min_from_error)

lemma assess_not_empty_sequence:
  assumes "dts \<noteq> []"
  shows "fst (assess E dts target w) \<noteq> Inl EmptySequence"
proof (cases "py_max dts")
  case (Inl e)
  with py_max_not_empty_sequence [OF assms] show ?thesis by (simp add: assess_def)
next
  case mx: (Inr mx)
  show ?thesis
  proof (cases "py_min dts")
    case (Inl e)
    with mx py_min_not_empty_sequence [OF assms] show ?thesis by (simp add: assess_def)
  next
    case (Inr mn)
    with mx show ?thesis by (simp add: assess_def now_def Let_def)
  qed
qed

lemma persist_not_empty_sequence:
  assumes "dts \<noteq> []"
  shows "fst (persist_and_report E zone data_type target res el res_list dts w) \<noteq> Inl EmptySequence"
proof -
  have a: "\<And>w1. fst (assess E dts target w1) \<noteq> Inl EmptySequence"
    using assess_not_empty_sequence [OF assms] by blast
  show ?thesis
  proof (cases "reduce_list res_list")
    case (Inl e)
    with reduce_list_error [OF Inl] show ?thesis by (simp add: persist_and_report_def)
  next
    case (Inr rows)
    show ?thesis
    proof (cases "set_index ''datetime'' rows")
      case (Inl e)
      then have "e = KeyError ''datetime''" by (auto simp: set_index_def split: if_splits)
      with Inl Inr show ?thesis by (simp add: persist_and_report_def)
    next
      case df: (Inr df)
      show ?thesis
      proof (cases "write_points E df (series_target data_type zone)")
        case (Some msg)
        with Inr df show ?thesis by (simp add: persist_and_report_def client_write_def)
      next
        case None
        let ?w1 = "w\<lparr>writes := writes w @ [(series_target data_type zone, df)]\<rparr>"
        obtain ra w' where ra: "assess E dts target ?w1 = (ra, w')"
          by (cases "assess E dts target ?w1")
        with a [of ?w1] have "ra \<noteq> Inl EmptySequence" by simp
        with Inr df None ra show ?thesis
          by (cases ra) (simp_all add: persist_and_report_def client_write_def now_def)
      qed
    qed
  qed
qed

lemma process_not_empty_sequence:
  "fst (process E zone data_type target start res w) \<noteq> Inl EmptySequence"
proof (cases "truthy res")
  case False
  then show ?thesis by (simp add: process_def)
next
  case True
  show ?thesis
  proof (cases "get_dts (to_res_list res)")
    case (Inl e)
    with True show ?thesis by (simp add: process_def now_def)
  next
    case (Inr vs)
    show ?thesis
    proof (cases "native_dts vs")
      case None
      with True Inr show ?thesis by (simp add: process_def now_def)
    next
      case (Some dts)
      from dts_nonempty [OF True Inr Some] have "dts \<noteq> []" .
      from persist_not_empty_sequence [OF this] True Inr Some show ?thesis
        by (simp add: process_def now_def)
    qed
  qed
qed

text \<open>
  C10. \<open>max\<close> and \<open>min\<close>, which raise on an empty list, are reached only with a list that
  is not empty: a truthy result gives at least one record and every record gives one
  datetime, so neither builtin raises its \<open>EmptySequence\<close> error there, and no run of the
  job ends in it.
\<close>

theorem min_max_never_on_empty:
  "fst (parse_to_influx_body E zone data_type target_datetime w) \<noteq> Inl EmptySequence \<and>
   (truthy res \<and> get_dts (to_res_list res) = Inr vs \<and> native_dts vs = Some dts \<longrightarrow>
      dts \<noteq> [] \<and> py_max dts \<noteq> Inl EmptySequence \<and> py_min dts \<noteq> Inl EmptySequence)"
proof (intro conjI impI)
  show "fst (parse_to_influx_body E zone data_type target_datetime w) \<noteq> Inl EmptySequence"
  proof (cases "resolve_target E target_datetime")
    case (Inl e)
    then show ?thesis
      by (auto simp: parse_to_influx_body_def resolve_target_def split: if_splits sum.splits)
  next
    case (Inr target)
    show ?thesis
    proof (cases "fetch E zone data_type target")
      case (Inl e)
      then have "e \<noteq> EmptySequence"
        by (auto simp: fetch_def lookup_parser_def split: sum.splits option.splits)
      with Inl Inr show ?thesis by (simp add: parse_to_influx_body_def now_def)
    next
      case res: (Inr r)
      with Inr process_not_empty_sequence show ?thesis
        by (simp add: parse_to_influx_body_def now_def)
    qed
  qed
next
  assume a: "truthy res \<and> get_dts (to_res_list res) = Inr vs \<and> native_dts vs = Some dts"
  then have ne: "dts \<noteq> []" using dts_nonempty by blast
  then show "dts \<noteq> []" .
  from ne show "py_max dts \<noteq> Inl EmptySequence"
    by (rule py_max_not_empty_sequence)
  from ne show "py_min dts \<noteq> Inl EmptySequence"
    by (rule py_min_not_empty_sequence)
qed

theorem min_max_never_on_empty_witness:
  "truthy scenario \<and> get_dts (to_res_list scenario) = Inr [PDatetime T0, PDatetime T1] \<and>
   native_dts [PDatetime T0, PDatetime T1] = Some [T0, T1] \<and>
   py_max [T0, T1] = Inr T1 \<and> py_min [T0, T1] = Inr T0 \<and>
   fst (parse_to_influx_body (example_env scenario) ''AT'' ''production'' PNone world0)
     \<noteq> Inl EmptySequence"
proof -
  have a: "truthy scenario \<and> get_dts (to_res_list scenario) = Inr [PDatetime T0, PDatetime T1] \<and>
     native_dts [PDatetime T0, PDatetime T1] = Some [T0, T1]"
    by (simp add: scenario_def)
  have b: "py_max [T0, T1] = Inr T1 \<and> py_min [T0, T1] = Inr T0"
    by (simp add: T0_def T1_def py_lt_def instant_def)
  from min_max_never_on_empty
         [of "example_env scenario" "''AT''" "''production''" PNone world0 scenario
             "[PDatetime T0, PDatetime T1]" "[T0, T1]"] a b
  show ?thesis by simp
qed

section \<open>Malformed batches\<close>

lemma native_dts_None:
  assumes "list_all2 (\<lambda>e v. getitem e ''datetime'' = Inr v) es vs"
    and "e \<in> set es" and "lacks_native_datetime e"
  shows "native_dts vs = None"
proof (rule ccontr)
  assume "native_dts vs \<noteq> None"
  then obtain ds where "native_dts vs = Some ds" by auto
  from native_dts_Some [OF this] have vs: "vs = map PDatetime ds" .
  from assms(2) obtain i where i: "i < length es" "es ! i = e"
    by (auto simp: in_set_conv_nth)
  with assms(1) have "getitem e ''datetime'' = Inr (vs ! i)" "i < length vs"
    by (auto simp: list_all2_conv_all_nth)
  with vs have "getitem e ''datetime'' = Inr (PDatetime (ds ! i))" by simp
  with assms(3) show False by (simp add: lacks_native_datetime_def)
qed

lemma process_malformed:
  assumes t: "truthy res"
    and bad: "\<exists>e \<in> set (to_res_list res). lacks_native_datetime e"
  shows "process E zone data_type target start res w =
           (if \<forall>e \<in> set (to_res_list res). has_datetime_key e
            then (Inl AssertionError, w\<lparr>ticks := Suc (ticks w)\<rparr>)
            else (Inr PNone, say (LacksDatetime res) (w\<lparr>ticks := Suc (ticks w)\<rparr>)))"
proof (cases "get_dts (to_res_list res)")
  case (Inl err)
  from get_dts_Inl [OF Inl] have "\<not> (\<forall>e \<in> set (to_res_list res). has_datetime_key e)" by blast
  with Inl t show ?thesis by (simp add: process_def now_def)
next
  case (Inr vs)
  have all: "\<forall>e \<in> set (to_res_list res). has_datetime_key e"
    using get_dts_Inr [OF Inr]
    by (auto simp: has_datetime_key_def list_all2_conv_all_nth in_set_conv_nth)
  from bad obtain e where "e \<in> set (to_res_list res)" "lacks_native_datetime e" by blast
  from native_dts_None [OF get_dts_Inr [OF Inr] this] have "native_dts vs = None" .
  with Inr t all show ?thesis by (simp add: process_def now_def)
qed

text \<open>
  C2, as amended. When the parser has returned a batch with at least one record that lacks
  the datetime key or whose datetime is not a native datetime, nothing reaches the
  writer, in the body and in the guarded job alike. When moreover the batch is truthy, the
  run ends in the schema error before the write: the message of line 98 and a plain
  return when some subscript fails, the assertion error of line 104 when all records have
  the key. (The one falsy batch with a malformed record is the single empty dict, which
  line 85 treats as an empty result.)
\<close>

theorem malformed_batch_writes_nothing:
  assumes "resolve_target E target_datetime = Inr target"
    and "fetch E zone data_type target = Inr res"
    and "\<exists>e \<in> set (to_res_list res). lacks_native_datetime e"
  shows "writes (snd (parse_to_influx_body E zone data_type target_datetime w)) = writes w \<and>
         writes (snd (parse_to_influx E zone data_type target_datetime w)) = writes w \<and>
         (truthy res \<longrightarrow>
            schema_error res w (parse_to_influx_body E zone data_type target_datetime w) \<and>
            parse_to_influx_body E zone data_type target_datetime w =
              (if \<forall>e \<in> set (to_res_list res). has_datetime_key e
               then (Inl AssertionError, w\<lparr>ticks := Suc (Suc (ticks w))\<rparr>)
               else (Inr PNone, say (LacksDatetime res) (w\<lparr>ticks := Suc (Suc (ticks w))\<rparr>))))"
proof -
  let ?w1 = "w\<lparr>ticks := Suc (ticks w)\<rparr>"
  have body: "parse_to_influx_body E zone data_type target_datetime w =
      process E zone data_type target (clock E (ticks w)) res ?w1"
    using assms(1,2) by (simp add: parse_to_influx_body_def now_def)
  have p: "truthy res \<Longrightarrow> process E zone data_type target (clock E (ticks w)) res ?w1 =
           (if \<forall>e \<in> set (to_res_list res). has_datetime_key e
            then (Inl AssertionError, ?w1\<lparr>ticks := Suc (ticks ?w1)\<rparr>)
            else (Inr PNone, say (LacksDatetime res) (?w1\<lparr>ticks := Suc (ticks ?w1)\<rparr>)))"
    using process_malformed [OF _ assms(3)] by blast
  have q: "\<not> truthy res \<Longrightarrow> process E zone data_type target (clock E (ticks w)) res ?w1 =
           (Inr PNone, say (ParserReturnedNothing res) ?w1)"
    by (simp add: process_def)
  have w_body: "writes (snd (parse_to_influx_body E zone data_type target_datetime w)) = writes w"
    using p q by (cases "truthy res") (auto simp: body say_def)
  moreover have "writes (snd (parse_to_influx E zone data_type target_datetime w)) = writes w"
  proof -
    obtain r1 w1 where b: "parse_to_influx_body E zone data_type target_datetime w = (r1, w1)"
      by (cases "parse_to_influx_body E zone data_type target_datetime w")
    obtain r2 w2 where g: "parse_to_influx E zone data_type target_datetime w = (r2, w2)"
      by (cases "parse_to_influx E zone data_type target_datetime w")
    from guard_writes [OF g [unfolded parse_to_influx_def] b] w_body b g show ?thesis by simp
  qed
  moreover have "truthy res \<longrightarrow>
            schema_error res w (parse_to_influx_body E zone data_type target_datetime w) \<and>
            parse_to_influx_body E zone data_type target_datetime w =
              (if \<forall>e \<in> set (to_res_list res). has_datetime_key e
               then (Inl AssertionError, w\<lparr>ticks := Suc (Suc (ticks w))\<rparr>)
               else (Inr PNone, say (LacksDatetime res) (w\<lparr>ticks := Suc (Suc (ticks w))\<rparr>)))"
    using p by (auto simp: body schema_error_def say_def)
  ultimately show ?thesis by blast
qed

theorem malformed_batch_writes_nothing_witness:
  "lacks_native_datetime (PDict [(''datetime'', PStr ''2018-07-03'')]) \<and>
   parse_to_influx_body (example_env string_datetime) ''AT'' ''production'' PNone world0 =
     (Inl AssertionError, \<lparr>writes = [], printed = [], ticks = 2\<rparr>) \<and>
   lacks_native_datetime (PDict [(''value'', PInt 1)]) \<and>
   parse_to_influx_body (example_env no_datetime) ''AT'' ''production'' PNone world0 =
     (Inr PNone, \<lparr>writes = [], printed = [LacksDatetime no_datetime], ticks = 2\<rparr>)"
proof -
  have r: "\<And>x. resolve_target (example_env x) PNone = Inr PNone"
    by (simp add: resolve_target_def)
  have f: "\<And>x. fetch (example_env x) ''AT'' ''production'' PNone = Inr x"
    by (simp add: fetch_def lookup_parser_def example_env_def)
  have l1: "lacks_native_datetime (PDict [(''datetime'', PStr ''2018-07-03'')])"
    by (simp add: lacks_native_datetime_def)
  have l2: "lacks_native_datetime (PDict [(''value'', PInt 1)])"
    by (simp add: lacks_native_datetime_def)
  have b1: "\<exists>e \<in> set (to_res_list string_datetime). lacks_native_datetime e"
    using l1 by (simp add: string_datetime_def)
  have b2: "\<exists>e \<in> set (to_res_list no_datetime). lacks_native_datetime e"
    using l2 by (simp add: no_datetime_def)
  have k1: "\<forall>e \<in> set (to_res_list string_datetime). has_datetime_key e"
    by (simp add: string_datetime_def has_datetime_key_def)
  have k2: "\<not> (\<forall>e \<in> set (to_res_list no_datetime). has_datetime_key e)"
    by (simp add: no_datetime_def has_datetime_key_def)
  have t1: "truthy string_datetime" by (simp add: string_datetime_def)
  have t2: "truthy no_datetime" by (simp add: no_datetime_def)
  from malformed_batch_writes_nothing [OF r f b1, of world0]
       malformed_batch_writes_nothing [OF r f b2, of world0]
       l1 l2 k1 k2 t1 t2
  show ?thesis by (simp add: say_def world0_def)
qed

text \<open>
  C2 as stated fails on the batch that is the single record \<^verbatim>\<open>{}\<close>: the record lacks the
  key, yet the run ends as an empty result, not in the schema error.
\<close>

theorem empty_record_counterexample:
  "lacks_native_datetime (PDict []) \<and>
   to_res_list (PDict []) = [PDict []] \<and>
   resolve_target (example_env (PDict [])) PNone = Inr PNone \<and>
   fetch (example_env (PDict [])) ''AT'' ''production'' PNone = Inr (PDict []) \<and>
   parse_to_influx_body (example_env (PDict [])) ''AT'' ''production'' PNone world0 =
     (Inr PNone, \<lparr>writes = [], printed = [ParserReturnedNothing (PDict [])], ticks = 1\<rparr>) \<and>
   \<not> schema_error (PDict []) world0
       (parse_to_influx_body (example_env (PDict [])) ''AT'' ''production'' PNone world0)"
  by (simp add: lacks_native_datetime_def resolve_target_def fetch_def lookup_parser_def
      parser_args_def example_env_def parse_to_influx_body_def process_def now_def say_def
      world0_def schema_error_def)

section \<open>Freshness\<close>
















section \<open>Falsy targets\<close>









section \<open>Normalization\<close>













section \<open>Cancellation\<close>

lemma run_job_keeps:
  assumes "run_job t j w = (Inr j', w')"
  shows "job_fn j' = job_fn j \<and> cadence j' = cadence j \<and>
         (disabled j \<longrightarrow> j' = j \<and> w' = w) \<and>
         (disabled j' \<and> \<not> disabled j \<longrightarrow> job_fn j w = (Inr PCancelJob, w'))"
  using assms
  by (cases "job_fn j w") (auto simp: run_job_def split: if_splits sum.splits)

lemma run_pending_keeps:
  "run_pending t js w = (Inr js', w') \<Longrightarrow>
     length js' = length js \<and>
     (\<forall>i < length js.
        job_fn (js' ! i) = job_fn (js ! i) \<and> cadence (js' ! i) = cadence (js ! i) \<and>
        (disabled (js ! i) \<longrightarrow> js' ! i = js ! i) \<and>
        (disabled (js' ! i) \<and> \<not> disabled (js ! i) \<longrightarrow>
           (\<exists>w1 w2. job_fn (js ! i) w1 = (Inr PCancelJob, w2))))"
proof (induction js arbitrary: w js')
  case Nil
  then show ?case by simp
next
  case (Cons j js)
  from Cons.prems obtain j' w1 where j: "run_job t j w = (Inr j', w1)"
    by (cases "run_job t j w") (auto split: sum.splits)
  with Cons.prems obtain js1 where js1: "run_pending t js w1 = (Inr js1, w')" "js' = j' # js1"
    by (cases "run_pending t js w1") (auto split: sum.splits)
  from Cons.IH [OF js1(1)] have ih:
    "length js1 = length js"
    "\<forall>i < length js.
        job_fn (js1 ! i) = job_fn (js ! i) \<and> cadence (js1 ! i) = cadence (js ! i) \<and>
        (disabled (js ! i) \<longrightarrow> js1 ! i = js ! i) \<and>
        (disabled (js1 ! i) \<and> \<not> disabled (js ! i) \<longrightarrow>
           (\<exists>w1 w2. job_fn (js ! i) w1 = (Inr PCancelJob, w2)))"
    by simp_all
  from run_job_keeps [OF j] have hd:
    "job_fn j' = job_fn j" "cadence j' = cadence j" "disabled j \<longrightarrow> j' = j"
    "disabled j' \<and> \<not> disabled j \<longrightarrow> (\<exists>w1 w2. job_fn j w1 = (Inr PCancelJob, w2))"
    by blast+
  show ?case
  proof (intro conjI allI impI)
    show "length js' = length (j # js)" using ih(1) js1(2) by simp
  next
    fix i assume "i < length (j # js)"
    then show "job_fn (js' ! i) = job_fn ((j # js) ! i)"
      using ih hd js1(2) by (cases i) simp_all
  next
    fix i assume "i < length (j # js)"
    then show "cadence (js' ! i) = cadence ((j # js) ! i)"
      using ih hd js1(2) by (cases i) simp_all
  next
    fix i assume "i < length (j # js)" "disabled ((j # js) ! i)"
    then show "js' ! i = (j # js) ! i"
      using ih hd js1(2) by (cases i) simp_all
  next
    fix i assume "i < length (j # js)" "disabled (js' ! i) \<and> \<not> disabled ((j # js) ! i)"
    then show "\<exists>w1 w2. job_fn ((j # js) ! i) w1 = (Inr PCancelJob, w2)"
      using ih hd js1(2) by (cases i) simp_all
  qed
qed

text \<open>
  C6. With cancel-on-failure a run that raises makes the guard print the trace and return
  the cancellation sentinel; with the default policy a run that raises never returns it.
  In the scheduler, a due job guarded with cancel-on-failure whose run raises becomes
  disabled, where the same job under the default policy stays idle with its last run
  moved to the tick. A disabled job is never run again: at any tick and in any world it
  is handed back as it is and the world is untouched. A scan keeps the number of jobs,
  their functions and their cadences, leaves disabled jobs as they are, and disables a
  job only when that job's own function returned the sentinel.
\<close>

theorem cancel_on_failure_policy:
  "(job_func w = (Inl e, w1) \<longrightarrow>
      catch_exceptions True E job_func w =
        (Inr PCancelJob, say (Traceback (clock E (ticks w1)) e) (w1\<lparr>ticks := Suc (ticks w1)\<rparr>)) \<and>
      fst (catch_exceptions False E job_func w) \<noteq> Inr PCancelJob) \<and>
   (job_func w = (Inl e, w1) \<and> \<not> disabled j \<and> cadence j \<le> t - last_run j \<longrightarrow>
      (job_fn j = catch_exceptions True E job_func \<longrightarrow>
         run_job t j w =
           (Inr (j\<lparr>disabled := True\<rparr>),
            say (Traceback (clock E (ticks w1)) e) (w1\<lparr>ticks := Suc (ticks w1)\<rparr>))) \<and>
      (job_fn j = catch_exceptions False E job_func \<longrightarrow>
         run_job t j w =
           (Inr (j\<lparr>last_run := t\<rparr>),
            say (Traceback (clock E (ticks w1)) e) (w1\<lparr>ticks := Suc (ticks w1)\<rparr>)))) \<and>
   (disabled j \<longrightarrow> run_job t j w = (Inr j, w)) \<and>
   (run_pending t js w = (Inr js', w') \<longrightarrow>
      length js' = length js \<and>
      (\<forall>i < length js.
         job_fn (js' ! i) = job_fn (js ! i) \<and> cadence (js' ! i) = cadence (js ! i) \<and>
         (disabled (js ! i) \<longrightarrow> js' ! i = js ! i) \<and>
         (disabled (js' ! i) \<and> \<not> disabled (js ! i) \<longrightarrow>
            (\<exists>w1 w2. job_fn (js ! i) w1 = (Inr PCancelJob, w2)))))"
proof (intro conjI)
  show "job_func w = (Inl e, w1) \<longrightarrow>
      catch_exceptions True E job_func w =
        (Inr PCancelJob, say (Traceback (clock E (ticks w1)) e) (w1\<lparr>ticks := Suc (ticks w1)\<rparr>)) \<and>
      fst (catch_exceptions False E job_func w) \<noteq> Inr PCancelJob"
    by (simp add: catch_exceptions_def now_def)
  show "job_func w = (Inl e, w1) \<and> \<not> disabled j \<and> cadence j \<le> t - last_run j \<longrightarrow>
      (job_fn j = catch_exceptions True E job_func \<longrightarrow>
         run_job t j w =
           (Inr (j\<lparr>disabled := True\<rparr>),
            say (Traceback (clock E (ticks w1)) e) (w1\<lparr>ticks := Suc (ticks w1)\<rparr>))) \<and>
      (job_fn j = catch_exceptions False E job_func \<longrightarrow>
         run_job t j w =
           (Inr (j\<lparr>last_run := t\<rparr>),
            say (Traceback (clock E (ticks w1)) e) (w1\<lparr>ticks := Suc (ticks w1)\<rparr>)))"
    by (simp add: run_job_def catch_exceptions_def now_def)
  show "disabled j \<longrightarrow> run_job t j w = (Inr j, w)"
    by (simp add: run_job_def)
  show "run_pending t js w = (Inr js', w') \<longrightarrow>
      length js' = length js \<and>
      (\<forall>i < length js.
         job_fn (js' ! i) = job_fn (js ! i) \<and> cadence (js' ! i) = cadence (js ! i) \<and>
         (disabled (js ! i) \<longrightarrow> js' ! i = js ! i) \<and>
         (disabled (js' ! i) \<and> \<not> disabled (js ! i) \<longrightarrow>
            (\<exists>w1 w2. job_fn (js ! i) w1 = (Inr PCancelJob, w2))))"
    using run_pending_keeps by blast
qed

theorem cancel_on_failure_policy_witness:
  "failing world0 = (Inl TypeError, world0) \<and>
   catch_exceptions True (example_env PNone) failing world0 =
     (Inr PCancelJob, \<lparr>writes = [], printed = [Traceback 1000 TypeError], ticks = 1\<rparr>) \<and>
   run_pending 900
       [job_of (catch_exceptions True (example_env PNone) failing),
        job_of (catch_exceptions False (example_env PNone) failing),
        job_of succeeding] world0 =
     (Inr [(job_of (catch_exceptions True (example_env PNone) failing))\<lparr>disabled := True\<rparr>,
           (job_of (catch_exceptions False (example_env PNone) failing))\<lparr>last_run := 900\<rparr>,
           (job_of succeeding)\<lparr>last_run := 900\<rparr>],
      \<lparr>writes = [], printed = [Traceback 1000 TypeError, Traceback 1001 TypeError],
         ticks = 2\<rparr>) \<and>
   run_pending 1800
       [(job_of (catch_exceptions True (example_env PNone) failing))\<lparr>disabled := True\<rparr>,
        (job_of (catch_exceptions False (example_env PNone) failing))\<lparr>last_run := 900\<rparr>,
        (job_of succeeding)\<lparr>last_run := 900\<rparr>]
       \<lparr>writes = [], printed = [Traceback 1000 TypeError, Traceback 1001 TypeError],
          ticks = 2\<rparr> =
     (Inr [(job_of (catch_exceptions True (example_env PNone) failing))\<lparr>disabled := True\<rparr>,
           (job_of (catch_exceptions False (example_env PNone) failing))\<lparr>last_run := 1800\<rparr>,
           (job_of succeeding)\<lparr>last_run := 1800\<rparr>],
      \<lparr>writes = [],
         printed = [Traceback 1000 TypeError, Traceback 1001 TypeError, Traceback 1002 TypeError],
         ticks = 3\<rparr>)"
proof -
  have f: "failing world0 = (Inl TypeError, world0)"
    by (simp add: failing_def)
  have d: "\<not> disabled (job_of (catch_exceptions True (example_env PNone) failing)) \<and>
      cadence (job_of (catch_exceptions True (example_env PNone) failing))
        \<le> 900 - last_run (job_of (catch_exceptions True (example_env PNone) failing))"
    by (simp add: job_of_def)
  have g: "job_fn (job_of (catch_exceptions True (example_env PNone) failing)) =
      catch_exceptions True (example_env PNone) failing"
    by (simp add: job_of_def)
  from cancel_on_failure_policy
         [of failing world0 TypeError world0 "example_env PNone"
             "job_of (catch_exceptions True (example_env PNone) failing)" 900] f d g
  have first: "run_job 900 (job_of (catch_exceptions True (example_env PNone) failing)) world0 =
      (Inr ((job_of (catch_exceptions True (example_env PNone) failing))\<lparr>disabled := True\<rparr>),
       say (Traceback (clock (example_env PNone) (ticks world0)) TypeError)
         (world0\<lparr>ticks := Suc (ticks world0)\<rparr>))"
    and guard: "catch_exceptions True (example_env PNone) failing world0 =
        (Inr PCancelJob, say (Traceback (clock (example_env PNone) (ticks world0)) TypeError)
           (world0\<lparr>ticks := Suc (ticks world0)\<rparr>))"
    by simp_all
  show ?thesis
    using f first guard
    by (simp add: run_job_def catch_exceptions_def failing_def succeeding_def job_of_def
        now_def say_def world0_def example_env_def)
qed

end
